theory Spec2Isabelle
  imports Main "HOL-Library.Word" "HOL-Library.Signed_Division"
begin

section \<open>Machine integers and the counted loop\<close>

text \<open>
  Both programs compute with \<^verbatim>\<open>int\<close> (32 bits) and \<^verbatim>\<open>long long\<close> (64 bits).
  They are words here: \<open>+\<close>, \<open>-\<close> and \<open>*\<close> wrap around, \<open>sint\<close> reads the two's
  complement value, \<open><s\<close> is the signed comparison.
\<close>

type_synonym int32 = "32 word"
type_synonym int64 = "64 word"

text \<open>
  \<^verbatim>\<open>for (int i = a; i < n; ++i) body\<close>, with the loop-carried variables as the state
  \<open>s\<close>. None of the loops of the two programs writes its counter or its bound in the body.
\<close>

function for_loop :: "int32 \<Rightarrow> int32 \<Rightarrow> (int32 \<Rightarrow> 's \<Rightarrow> 's) \<Rightarrow> 's \<Rightarrow> 's" where
  "for_loop i n body s = (if i <s n then for_loop (i + 1) n body (body i s) else s)"
  by pat_completeness auto
termination
proof (relation "measure (\<lambda>(i, n, body, s). nat (sint n - sint i))")
  show "wf (measure (\<lambda>(i :: int32, n :: int32, body :: int32 \<Rightarrow> 's \<Rightarrow> 's, s :: 's). nat (sint n - sint i)))"
    by simp
next
  fix i n :: int32 and body :: "int32 \<Rightarrow> 's \<Rightarrow> 's" and s :: 's
  assume "i <s n"
  then have lt: "sint i < sint n"
    by (simp add: word_sless_alt)
  moreover have "sint n < 2 ^ 31"
    using sint_lt [of n] by simp
  moreover have "- (2 ^ 31) \<le> sint i"
    using sint_ge [of i] by simp
  ultimately have "signed_take_bit 31 (sint i + 1) = sint i + 1"
    by (intro signed_take_bit_int_eq_self) simp_all
  then have "sint (i + 1) = sint i + 1"
    by (simp add: sint_word_ariths)
  with lt show "((i + 1, n, body, body i s), (i, n, body, s))
      \<in> measure (\<lambda>(i, n, body, s). nat (sint n - sint i))"
    by simp
qed

declare for_loop.simps [simp del]

section \<open>The console\<close>

text \<open>
  A value of type \<^verbatim>\<open>int\<close> together with its definedness, as a memory checker tracks it:
  \<open>Init v\<close> was written by the program, \<open>Garbage v\<close> is whatever the location held.
\<close>

datatype val = Init int32 | Garbage int32

fun val_of :: "val \<Rightarrow> int32" where
  "val_of (Init v) = v"
| "val_of (Garbage v) = v"

fun indeterminate :: "val \<Rightarrow> bool" where
  "indeterminate (Init v) = False"
| "indeterminate (Garbage v) = True"

text \<open>
  Standard output is the sequence of items inserted into \<^verbatim>\<open>std::cout\<close>; \<open>Endl\<close> is
  \<^verbatim>\<open>std::endl\<close>. A heap address is the number of the allocation.
\<close>

datatype out_item = Str string | Ptr nat | Num val | LongV int64 | Endl

record console =
  stdout :: "out_item list"

definition print :: "out_item list \<Rightarrow> 'a console_scheme \<Rightarrow> 'a console_scheme" where
  "print items s = s\<lparr>stdout := stdout s @ items\<rparr>"

section \<open>memory\_example.cpp\<close>

text \<open>
  The heap is the list of all blocks ever allocated, \<open>live\<close> until released.
  \<open>freed\<close> lists the addresses released by \<^verbatim>\<open>delete[]\<close>, in order, and \<open>reports\<close> what
  a memory checker would flag while the program runs. The allocator always succeeds
  (the spec puts allocation failure outside the programs' behaviour).
\<close>

record block =
  cells :: "val list"
  live :: bool

datatype report =
  Invalid_read nat nat
| Invalid_write nat nat
| Invalid_free nat
| Uninit_condition int32
| Uninit_output int32

record mstate = console +
  heap :: "block list"
  freed :: "nat list"
  reports :: "report list"

text \<open>
  What the program cannot control: the bits found in the uninitialized local of
  \<^verbatim>\<open>use_uninitialized_memory\<close>, and in cell \<open>i\<close> of block \<open>a\<close> before it is written.
\<close>

record menv =
  stack_garbage :: int32
  heap_garbage :: "nat \<Rightarrow> nat \<Rightarrow> int32"

definition init_mstate :: mstate where
  "init_mstate = \<lparr>stdout = [], heap = [], freed = [], reports = []\<rparr>"

definition report :: "report \<Rightarrow> mstate \<Rightarrow> mstate" where
  "report r s = s\<lparr>reports := reports s @ [r]\<rparr>"

text \<open>\<^verbatim>\<open>new int[n]\<close>: a fresh live block of \<open>n\<close> cells, none of them initialized.\<close>

definition new_array :: "menv \<Rightarrow> nat \<Rightarrow> mstate \<Rightarrow> nat \<times> mstate" where
  "new_array env n s =
     (let a = length (heap s)
      in (a, s\<lparr>heap := heap s @
                 [\<lparr>cells = map (\<lambda>i. Garbage (heap_garbage env a i)) [0..<n], live = True\<rparr>]\<rparr>))"

definition in_bounds :: "mstate \<Rightarrow> nat \<Rightarrow> nat \<Rightarrow> bool" where
  "in_bounds s a i =
     (a < length (heap s) \<and> live (heap s ! a) \<and> i < length (cells (heap s ! a)))"

text \<open>\<^verbatim>\<open>p[i] = v\<close>\<close>

definition store :: "nat \<Rightarrow> nat \<Rightarrow> int32 \<Rightarrow> mstate \<Rightarrow> mstate" where
  "store a i v s =
     (if in_bounds s a i
      then s\<lparr>heap := (heap s)[a := (heap s ! a)\<lparr>cells := (cells (heap s ! a))[i := Init v]\<rparr>]\<rparr>
      else report (Invalid_write a i) s)"

text \<open>Reading \<^verbatim>\<open>p[i]\<close>\<close>

definition load :: "menv \<Rightarrow> nat \<Rightarrow> nat \<Rightarrow> mstate \<Rightarrow> val \<times> mstate" where
  "load env a i s =
     (if in_bounds s a i then (cells (heap s ! a) ! i, s)
      else (Garbage (heap_garbage env a i), report (Invalid_read a i) s))"

text \<open>\<^verbatim>\<open>delete[] p\<close>\<close>

definition delete_array :: "nat \<Rightarrow> mstate \<Rightarrow> mstate" where
  "delete_array a s =
     (if a < length (heap s) \<and> live (heap s ! a)
      then s\<lparr>heap := (heap s)[a := (heap s ! a)\<lparr>live := False\<rparr>], freed := freed s @ [a]\<rparr>
      else report (Invalid_free a) s)"

text \<open>The condition \<^verbatim>\<open>v > 0\<close> of a branch.\<close>

definition test_positive :: "val \<Rightarrow> mstate \<Rightarrow> bool \<times> mstate" where
  "test_positive v s =
     (0 <s val_of v, case v of Init x \<Rightarrow> s | Garbage g \<Rightarrow> report (Uninit_condition g) s)"

text \<open>\<^verbatim>\<open>std::cout << v\<close> for an \<^verbatim>\<open>int\<close>\<close>

definition print_val :: "val \<Rightarrow> mstate \<Rightarrow> mstate" where
  "print_val v s =
     print [Num v] (case v of Init x \<Rightarrow> s | Garbage g \<Rightarrow> report (Uninit_output g) s)"

definition msg_positive :: string where
  "msg_positive = ''Uninitialized value is positive.''"

definition msg_not_positive :: string where
  "msg_not_positive = ''Uninitialized value is not positive (or garbage).''"

definition cause_leak :: "menv \<Rightarrow> mstate \<Rightarrow> mstate" where
  "cause_leak env s0 =
     (let (leaky_array, s1) = new_array env 10 s0;
          s2 = store leaky_array 0 1 s1;
          s3 = print [Str ''Leaky function called. Memory allocated at: '',
                      Ptr leaky_array, Endl] s2
      in s3)"

definition use_uninitialized_memory :: "menv \<Rightarrow> mstate \<Rightarrow> mstate" where
  "use_uninitialized_memory env s0 =
     (let uninitialized_value = Garbage (stack_garbage env);
          (positive, s1) = test_positive uninitialized_value s0;
          s2 = (if positive then print [Str msg_positive, Endl] s1
                else print [Str msg_not_positive, Endl] s1);
          (partially_initialized_array, s3) = new_array env 5 s2;
          s4 = store partially_initialized_array 0 100 s3;
          s5 = print [Str ''Value at index 1: ''] s4;
          (v, s6) = load env partially_initialized_array 1 s5;
          s7 = print_val v s6;
          s8 = print [Str '' (potentially uninitialized)'', Endl] s7
      in delete_array partially_initialized_array s8)"

text \<open>\<^verbatim>\<open>main\<close> of memory\_example.cpp: the exit code and the final state.\<close>

definition main_memory :: "menv \<Rightarrow> int32 \<times> mstate" where
  "main_memory env =
     (let s1 = print [Str ''Starting memory_example program.'', Endl] init_mstate;
          s2 = cause_leak env s1;
          s3 = use_uninitialized_memory env s2;
          s4 = print [Str ''memory_example program finished.'', Endl] s3
      in (0, s4))"

section \<open>profiling\_example.cpp\<close>

text \<open>
  The arithmetic of \<^verbatim>\<open>double\<close>, the functions of \<^verbatim>\<open><cmath>\<close> and the clock of
  \<^verbatim>\<open><chrono>\<close> belong to the platform, not to this repository: they are parameters of
  the model, and every theorem below holds for all of them. \<open>d_lit m e\<close> is the
  literal \<open>m / 10 ^ e\<close>, \<open>d_of_int\<close> is \<^verbatim>\<open>static_cast<double>\<close> of an \<^verbatim>\<open>int\<close>, \<open>d_to_ll\<close>
  is \<^verbatim>\<open>static_cast<long long>\<close>, \<open>clock_now k\<close> is the reading of the \<open>k\<close>-th call of
  \<^verbatim>\<open>high_resolution_clock::now\<close>, and \<open>ms_of_ticks\<close> is the count of
  \<^verbatim>\<open>duration_cast<milliseconds>\<close> of a difference of two readings.
\<close>

record 'd platform =
  d_lit :: "int \<Rightarrow> nat \<Rightarrow> 'd"
  d_of_int :: "int32 \<Rightarrow> 'd"
  d_to_ll :: "'d \<Rightarrow> int64"
  d_add :: "'d \<Rightarrow> 'd \<Rightarrow> 'd"
  d_mul :: "'d \<Rightarrow> 'd \<Rightarrow> 'd"
  d_sqrt :: "'d \<Rightarrow> 'd"
  d_pow :: "'d \<Rightarrow> 'd \<Rightarrow> 'd"
  d_sin :: "'d \<Rightarrow> 'd"
  d_cos :: "'d \<Rightarrow> 'd"
  d_log :: "'d \<Rightarrow> 'd"
  clock_now :: "nat \<Rightarrow> int"
  ms_of_ticks :: "int \<Rightarrow> int64"

text \<open>
  Besides standard output the state of a run records, for the claims about calls: the calls
  of the three workload functions in order, the \<^verbatim>\<open>int\<close> values converted and passed to
  \<^verbatim>\<open>std::log\<close>, the durations (in ms) handed to \<^verbatim>\<open>sleep_for\<close>, and how often the clock was read.
\<close>

datatype call = Call_intensive int32 | Call_moderate int32 int32 | Call_simple int32

record pworld = console +
  calls :: "call list"
  log_args :: "int32 list"
  slept :: "int list"
  clock_queries :: nat

definition init_pworld :: pworld where
  "init_pworld = \<lparr>stdout = [], calls = [], log_args = [], slept = [], clock_queries = 0\<rparr>"

definition enter :: "call \<Rightarrow> pworld \<Rightarrow> pworld" where
  "enter c w = w\<lparr>calls := calls w @ [c]\<rparr>"

text \<open>\<^verbatim>\<open>std::this_thread::sleep_for(std::chrono::milliseconds(d))\<close> for an \<^verbatim>\<open>int\<close> \<open>d\<close>\<close>

definition sleep_for_ms :: "int32 \<Rightarrow> pworld \<Rightarrow> pworld" where
  "sleep_for_ms d w = w\<lparr>slept := slept w @ [sint d]\<rparr>"

text \<open>\<^verbatim>\<open>std::log(static_cast<double>(n))\<close>\<close>

definition log_of_int :: "'d platform \<Rightarrow> int32 \<Rightarrow> pworld \<Rightarrow> 'd \<times> pworld" where
  "log_of_int pf n w = (d_log pf (d_of_int pf n), w\<lparr>log_args := log_args w @ [n]\<rparr>)"

definition now :: "'d platform \<Rightarrow> pworld \<Rightarrow> int \<times> pworld" where
  "now pf w = (clock_now pf (clock_queries w), w\<lparr>clock_queries := Suc (clock_queries w)\<rparr>)"

definition intensive_computation :: "'d platform \<Rightarrow> int32 \<Rightarrow> pworld \<Rightarrow> int64 \<times> pworld" where
  "intensive_computation pf iterations w0 =
     (let w1 = enter (Call_intensive iterations) w0;
          sum = for_loop 0 iterations (\<lambda>i sum.
                  for_loop 1 2000 (\<lambda>j sum.
                    sum + d_to_ll pf
                            (d_add pf (d_sqrt pf (d_mul pf (d_of_int pf j) (d_of_int pf i)))
                                      (d_pow pf (d_lit pf 10001 4) (d_of_int pf j))))
                    sum)
                  0;
          w2 = (if iterations <s 10 then sleep_for_ms (50 * iterations) w1 else w1)
      in (sum, w2))"

definition moderate_work :: "'d platform \<Rightarrow> int32 \<Rightarrow> int32 \<Rightarrow> pworld \<Rightarrow> 'd \<times> pworld" where
  "moderate_work pf base repetitions w0 =
     (let w1 = enter (Call_moderate base repetitions) w0;
          result = d_lit pf 0 1
      in for_loop 0 repetitions (\<lambda>i (result, w).
           let result = d_add pf result
                          (d_mul pf (d_sin pf (d_of_int pf (base + i)))
                                    (d_cos pf (d_of_int pf (base - i))))
           in for_loop 0 100 (\<lambda>k (result, w).
                let (y, w) = log_of_int pf (k + base + 1) w
                in (d_add pf result y, w))
              (result, w))
         (result, w1))"

definition simple_task :: "'d platform \<Rightarrow> int32 \<Rightarrow> pworld \<Rightarrow> pworld" where
  "simple_task pf ident w0 =
     (let w1 = enter (Call_simple ident) w0;
          val = d_of_int pf ident;
          val = d_sqrt pf (d_add pf val (d_lit pf 10 1))
      in if sint ident smod 100 = 0 then w1 else w1)"

definition run_simulation :: "'d platform \<Rightarrow> pworld \<Rightarrow> pworld" where
  "run_simulation pf w0 =
     (let w1 = print [Str ''Starting intensive computation...'', Endl] w0;
          (intensive_result, w2) = intensive_computation pf 200 w1;
          w3 = print [Str ''Intensive computation finished. Result: '',
                      LongV intensive_result, Endl] w2;
          w4 = print [Str ''Starting moderate work series...'', Endl] w3;
          w5 = for_loop 0 50 (\<lambda>i w.
                 let (mod_res, w) = moderate_work pf (i * 10) 100 w
                 in if sint i smod 10 = 0 then w else w) w4;
          w6 = print [Str ''Moderate work finished.'', Endl] w5;
          w7 = print [Str ''Starting simple tasks...'', Endl] w6;
          w8 = for_loop 0 1000 (\<lambda>i w. simple_task pf i w) w7;
          w9 = print [Str ''Simple tasks finished.'', Endl] w8
      in w9)"

text \<open>\<^verbatim>\<open>main\<close> of profiling\_example.cpp: the exit code and the final state.\<close>

definition main_profiling :: "'d platform \<Rightarrow> int32 \<times> pworld" where
  "main_profiling pf =
     (let (start_time, w1) = now pf init_pworld;
          w2 = run_simulation pf w1;
          (end_time, w3) = now pf w2;
          duration = ms_of_ticks pf (end_time - start_time);
          w4 = print [Str ''Total execution time: '', LongV duration, Str '' ms'', Endl] w3
      in (0, w4))"

text \<open>
  A small integer-valued platform on which the model runs on concrete inputs. The theorems
  do not depend on it: they are stated for every platform.
\<close>

definition test_platform :: "int platform" where
  "test_platform =
     \<lparr>d_lit = (\<lambda>m e. m div 10 ^ e), d_of_int = sint, d_to_ll = word_of_int,
      d_add = (+), d_mul = (*), d_sqrt = (\<lambda>x. x), d_pow = (\<lambda>x y. x),
      d_sin = (\<lambda>x. x), d_cos = (\<lambda>x. x), d_log = (\<lambda>x. x),
      clock_now = int, ms_of_ticks = word_of_int\<rparr>"

definition test_env :: menv where
  "test_env = \<lparr>stack_garbage = 7, heap_garbage = (\<lambda>a i. word_of_nat (a + i))\<rparr>"

text \<open>An item of standard output that shows an indeterminate value.\<close>

fun printed_indeterminate :: "out_item \<Rightarrow> bool" where
  "printed_indeterminate (Num v) = indeterminate v"
| "printed_indeterminate x = False"

text \<open>
  The spec's account of the logarithms of \<^verbatim>\<open>moderate_work\<close>: in each of the repetitions,
  the arguments \<open>k + base + 1\<close> for \<open>k\<close> from 0 to 99, computed in \<^verbatim>\<open>int\<close>.
\<close>

definition spec_log_args :: "int32 \<Rightarrow> int32 \<Rightarrow> int32 list" where
  "spec_log_args base repetitions =
     concat (map (\<lambda>i. map (\<lambda>k. word_of_int k + base + 1) [0..99]) [0..sint repetitions - 1])"

text \<open>
  The spec's account of the value of \<^verbatim>\<open>moderate_work\<close>: the total starts at 0.0 and, for
  \<open>i\<close> from 0 to \<open>repetitions - 1\<close>, gets \<open>sin (base + i) * cos (base - i)\<close> and then
  \<open>log (k + base + 1)\<close> for \<open>k\<close> from 0 to 99 added. Here \<open>base + i\<close>, \<open>base - i\<close> and
  \<open>k + base + 1\<close> are sums of integers, and \<open>of_integer\<close> turns an integer into a
  \<^verbatim>\<open>double\<close>.
\<close>

definition spec_moderate_work :: "'d platform \<Rightarrow> (int \<Rightarrow> 'd) \<Rightarrow> int \<Rightarrow> int \<Rightarrow> 'd" where
  "spec_moderate_work pf of_integer base repetitions =
     fold (\<lambda>i total.
        fold (\<lambda>k t. d_add pf t (d_log pf (of_integer (k + base + 1)))) [0..99]
          (d_add pf total (d_mul pf (d_sin pf (of_integer (base + i)))
                                    (d_cos pf (of_integer (base - i))))))
       [0..repetitions - 1] (d_lit pf 0 1)"

text \<open>On the integer-valued platform an integer is its own \<^verbatim>\<open>double\<close>.\<close>

definition test_of_integer :: "int \<Rightarrow> int" where
  "test_of_integer x = x"

section \<open>The counted loop as a fold\<close>

lemma sint_succ_below:
  fixes i n :: int32
  assumes "i <s n"
  shows "sint (i + 1) = sint i + 1"
proof -
  have "sint i < sint n"
    using assms by (simp add: word_sless_alt)
  moreover have "sint n < 2 ^ 31"
    using sint_lt [of n] by simp
  moreover have "- (2 ^ 31) \<le> sint i"
    using sint_ge [of i] by simp
  ultimately have "signed_take_bit 31 (sint i + 1) = sint i + 1"
    by (intro signed_take_bit_int_eq_self) simp_all
  then show ?thesis
    by (simp add: sint_word_ariths)
qed

text \<open>The loop visits the counter values from \<open>i\<close> to \<open>n - 1\<close> in increasing order.\<close>

lemma for_loop_fold:
  "for_loop i n body s = fold body (map word_of_int [sint i..sint n - 1]) s"
proof (induction i n body s rule: for_loop.induct)
  case (1 i n body s)
  show ?case
  proof (cases "i <s n")
    case True
    then have lt: "sint i < sint n"
      by (simp add: word_sless_alt)
    have "[sint i..sint n - 1] = sint i # [sint (i + 1)..sint n - 1]"
      using lt by (simp add: upto_rec1 [of "sint i"] sint_succ_below [OF True])
    with True 1 show ?thesis
      by (simp add: for_loop.simps [of i])
  next
    case False
    then have "\<not> sint i < sint n"
      by (simp add: word_sless_alt)
    with False show ?thesis
      by (simp add: for_loop.simps [of i])
  qed
qed

section \<open>memory\_example.cpp: the effect of each function\<close>

lemma cause_leak_effect:
  "cause_leak env s =
     s\<lparr>stdout := stdout s @ [Str ''Leaky function called. Memory allocated at: '',
                             Ptr (length (heap s)), Endl],
       heap := heap s @
         [\<lparr>cells = Init 1 # map (\<lambda>i. Garbage (heap_garbage env (length (heap s)) i)) [1..<10],
           live = True\<rparr>]\<rparr>"
  by (simp add: cause_leak_def new_array_def store_def in_bounds_def print_def Let_def
      upt_conv_Cons [of 0 10] del: upt_Suc)

lemma use_uninitialized_memory_effect:
  "use_uninitialized_memory env s =
     s\<lparr>stdout := stdout s @
         [Str (if 0 <s stack_garbage env then msg_positive else msg_not_positive), Endl,
          Str ''Value at index 1: '', Num (Garbage (heap_garbage env (length (heap s)) 1)),
          Str '' (potentially uninitialized)'', Endl],
       heap := heap s @
         [\<lparr>cells = Init 100 # map (\<lambda>i. Garbage (heap_garbage env (length (heap s)) i)) [1..<5],
           live = False\<rparr>],
       freed := freed s @ [length (heap s)],
       reports := reports s @ [Uninit_condition (stack_garbage env),
                               Uninit_output (heap_garbage env (length (heap s)) 1)]\<rparr>"
  by (simp add: use_uninitialized_memory_def test_positive_def new_array_def store_def load_def
      in_bounds_def print_val_def delete_array_def report_def print_def Let_def
      upt_conv_Cons [of 0 5] upt_conv_Cons [of 1 5] del: upt_Suc)

text \<open>
  Claim C1. Every call of \<open>cause_leak\<close> allocates exactly one block, of 10 cells, writes 1
  to cell 0, prints one line with the address of the block, releases nothing and is flagged
  for nothing. The block stays live through a following \<open>use_uninitialized_memory\<close>, which
  releases only its own block, and is live at the end of \<open>main\<close>: the heap then holds two
  blocks, the leaked one at address 0, and the only address ever released is 1.
\<close>

theorem cause_leak_leaks_one_block:
  "heap (cause_leak env s) = heap s @
     [\<lparr>cells = Init 1 # map (\<lambda>i. Garbage (heap_garbage env (length (heap s)) i)) [1..<10],
       live = True\<rparr>]
   \<and> length (cells (heap (cause_leak env s) ! length (heap s))) = 10
   \<and> stdout (cause_leak env s) = stdout s @
        [Str ''Leaky function called. Memory allocated at: '', Ptr (length (heap s)), Endl]
   \<and> freed (cause_leak env s) = freed s
   \<and> reports (cause_leak env s) = reports s
   \<and> live (heap (use_uninitialized_memory env' (cause_leak env s)) ! length (heap s))
   \<and> freed (use_uninitialized_memory env' (cause_leak env s)) = freed s @ [Suc (length (heap s))]
   \<and> length (heap (snd (main_memory env))) = 2
   \<and> length (cells (heap (snd (main_memory env)) ! 0)) = 10
   \<and> live (heap (snd (main_memory env)) ! 0)
   \<and> freed (snd (main_memory env)) = [1]"
  by (simp add: cause_leak_effect use_uninitialized_memory_effect main_memory_def
      init_mstate_def print_def nth_append)

text \<open>
  Claim C2. Whatever the uninitialized local holds, \<open>use_uninitialized_memory\<close> prints
  exactly one of the two branch messages: the first when the value found is positive, the
  second otherwise, and both outcomes occur for some value. Among the items it prints
  exactly one is an indeterminate value (cell 1 of the new block); the uninitialized local
  is read by the comparison only.
\<close>

theorem use_uninitialized_memory_prints_one_branch_message:
  "stdout (use_uninitialized_memory env s) = stdout s @
     [Str (if 0 <s stack_garbage env then msg_positive else msg_not_positive), Endl,
      Str ''Value at index 1: '', Num (Garbage (heap_garbage env (length (heap s)) 1)),
      Str '' (potentially uninitialized)'', Endl]
   \<and> length (filter (\<lambda>x. x = Str msg_positive \<or> x = Str msg_not_positive)
         (drop (length (stdout s)) (stdout (use_uninitialized_memory env s)))) = 1
   \<and> length (filter printed_indeterminate
         (drop (length (stdout s)) (stdout (use_uninitialized_memory env s)))) = 1
   \<and> reports (use_uninitialized_memory env s) = reports s @
        [Uninit_condition (stack_garbage env),
         Uninit_output (heap_garbage env (length (heap s)) 1)]
   \<and> (\<exists>e. Str msg_positive \<in> set (stdout (use_uninitialized_memory e init_mstate)))
   \<and> (\<exists>e. Str msg_not_positive \<in> set (stdout (use_uninitialized_memory e init_mstate)))"
proof -
  have new: "drop (length (stdout s)) (stdout (use_uninitialized_memory env s)) =
     [Str (if 0 <s stack_garbage env then msg_positive else msg_not_positive), Endl,
      Str ''Value at index 1: '', Num (Garbage (heap_garbage env (length (heap s)) 1)),
      Str '' (potentially uninitialized)'', Endl]"
    by (simp add: use_uninitialized_memory_effect)
  have out: "stdout (use_uninitialized_memory env s) = stdout s @
     [Str (if 0 <s stack_garbage env then msg_positive else msg_not_positive), Endl,
      Str ''Value at index 1: '', Num (Garbage (heap_garbage env (length (heap s)) 1)),
      Str '' (potentially uninitialized)'', Endl]"
    by (simp add: use_uninitialized_memory_effect)
  have messages: "length (filter (\<lambda>x. x = Str msg_positive \<or> x = Str msg_not_positive)
      (drop (length (stdout s)) (stdout (use_uninitialized_memory env s)))) = 1"
    unfolding new by (simp add: msg_positive_def msg_not_positive_def)
  have printed: "length (filter printed_indeterminate
      (drop (length (stdout s)) (stdout (use_uninitialized_memory env s)))) = 1"
    unfolding new by simp
  have flagged: "reports (use_uninitialized_memory env s) = reports s @
      [Uninit_condition (stack_garbage env),
       Uninit_output (heap_garbage env (length (heap s)) 1)]"
    by (simp add: use_uninitialized_memory_effect)
  have "Str msg_positive \<in> set (stdout (use_uninitialized_memory
      \<lparr>stack_garbage = 1, heap_garbage = (\<lambda>a i. 0)\<rparr> init_mstate))"
    by (simp add: use_uninitialized_memory_effect word_sless_alt)
  then have pos: "\<exists>e. Str msg_positive \<in> set (stdout (use_uninitialized_memory e init_mstate))"
    by (rule exI)
  have "Str msg_not_positive \<in> set (stdout (use_uninitialized_memory
      \<lparr>stack_garbage = 0, heap_garbage = (\<lambda>a i. 0)\<rparr> init_mstate))"
    by (simp add: use_uninitialized_memory_effect word_sless_alt)
  then have neg: "\<exists>e. Str msg_not_positive \<in> set (stdout (use_uninitialized_memory e init_mstate))"
    by (rule exI)
  from out messages printed flagged pos neg show ?thesis
    by (intro conjI)
qed

text \<open>
  Claim C3. \<open>use_uninitialized_memory\<close> allocates exactly one block, of 5 cells. Cell 0
  holds 100 and cells 1 to 4 are never written: the block has these contents from the
  write of cell 0 until its release, which leaves them as they are. The value of cell 1
  is printed, and the block is released exactly once, by the function's last statement:
  no other address is released, nothing is flagged as an invalid access or release.
\<close>

theorem use_uninitialized_memory_allocates_and_releases_one_block:
  "heap (use_uninitialized_memory env s) = heap s @
     [\<lparr>cells = Init 100 # map (\<lambda>i. Garbage (heap_garbage env (length (heap s)) i)) [1..<5],
       live = False\<rparr>]
   \<and> cells (heap (use_uninitialized_memory env s) ! length (heap s)) =
        [Init 100,
         Garbage (heap_garbage env (length (heap s)) 1),
         Garbage (heap_garbage env (length (heap s)) 2),
         Garbage (heap_garbage env (length (heap s)) 3),
         Garbage (heap_garbage env (length (heap s)) 4)]
   \<and> freed (use_uninitialized_memory env s) = freed s @ [length (heap s)]
   \<and> drop (length (stdout s) + 2) (stdout (use_uninitialized_memory env s)) =
        [Str ''Value at index 1: '', Num (Garbage (heap_garbage env (length (heap s)) 1)),
         Str '' (potentially uninitialized)'', Endl]
   \<and> reports (use_uninitialized_memory env s) = reports s @
        [Uninit_condition (stack_garbage env),
         Uninit_output (heap_garbage env (length (heap s)) 1)]"
proof -
  have "map f [1..<5] = [f 1, f 2, f 3, f 4]" for f :: "nat \<Rightarrow> val"
    by (simp add: upt_conv_Cons eval_nat_numeral)
  then show ?thesis
    by (simp add: use_uninitialized_memory_effect)
qed

section \<open>profiling\_example.cpp: results and effects of the workload functions\<close>

lemma fold_add_sum_list:
  fixes a :: "'a :: comm_monoid_add"
  shows "fold (\<lambda>x acc. acc + f x) xs a = a + sum_list (map f xs)"
  by (induction xs arbitrary: a) (simp_all add: add.assoc)

text \<open>A loop on a pair of a result and a state, when the result does not depend on the state.\<close>

lemma fold_fst:
  assumes "\<And>k r w. fst (body k (r, w)) = f k r"
  shows "fst (fold body xs (r, w)) = fold f xs r"
proof (induction xs arbitrary: r w)
  case Nil
  show ?case by simp
next
  case (Cons x xs)
  have "body x (r, w) = (f x r, snd (body x (r, w)))"
    using assms [of x r w] by (simp add: prod_eq_iff)
  then show ?case
    using Cons.IH [of "f x r" "snd (body x (r, w))"] by simp
qed

lemma fold_snd:
  assumes "\<And>k r w. snd (body k (r, w)) = g k w"
  shows "snd (fold body xs (r, w)) = fold g xs w"
proof (induction xs arbitrary: r w)
  case Nil
  show ?case by simp
next
  case (Cons x xs)
  have "body x (r, w) = (fst (body x (r, w)), g x w)"
    using assms [of x r w] by (simp add: prod_eq_iff)
  then show ?case
    using Cons.IH [of "fst (body x (r, w))" "g x w"] by simp
qed

lemma fold_log_args:
  "fold (\<lambda>k w. w\<lparr>log_args := log_args w @ h k\<rparr>) xs w
     = w\<lparr>log_args := log_args w @ concat (map h xs)\<rparr>"
  by (induction xs arbitrary: w) simp_all

lemma fold_calls:
  "fold (\<lambda>k w. w\<lparr>calls := calls w @ c k\<rparr>) xs w
     = w\<lparr>calls := calls w @ concat (map c xs)\<rparr>"
  by (induction xs arbitrary: w) simp_all

lemma fold_calls_log_args:
  "fold (\<lambda>k w. w\<lparr>calls := calls w @ c k, log_args := log_args w @ h k\<rparr>) xs w
     = w\<lparr>calls := calls w @ concat (map c xs), log_args := log_args w @ concat (map h xs)\<rparr>"
  by (induction xs arbitrary: w) simp_all

lemma intensive_computation_result:
  "fst (intensive_computation pf n w) =
     (\<Sum>i\<leftarrow>map word_of_int [0..sint n - 1]. \<Sum>j\<leftarrow>map word_of_int [1..1999].
        d_to_ll pf (d_add pf (d_sqrt pf (d_mul pf (d_of_int pf j) (d_of_int pf i)))
                             (d_pow pf (d_lit pf 10001 4) (d_of_int pf j))))"
  by (simp add: intensive_computation_def Let_def for_loop_fold fold_add_sum_list)

lemma intensive_computation_world:
  "snd (intensive_computation pf n w) =
     w\<lparr>calls := calls w @ [Call_intensive n],
       slept := slept w @ (if n <s 10 then [sint (50 * n)] else [])\<rparr>"
  by (simp add: intensive_computation_def Let_def enter_def sleep_for_ms_def)

lemma moderate_work_result:
  "fst (moderate_work pf base repetitions w) =
     fold (\<lambda>i total.
        fold (\<lambda>k t. d_add pf t (d_log pf (d_of_int pf (k + base + 1)))) (map word_of_int [0..99])
          (d_add pf total (d_mul pf (d_sin pf (d_of_int pf (base + i)))
                                    (d_cos pf (d_of_int pf (base - i))))))
       (map word_of_int [0..sint repetitions - 1]) (d_lit pf 0 1)"
  apply (simp add: moderate_work_def Let_def for_loop_fold)
  apply (rule fold_fst)
  apply (simp add: split_def log_of_int_def fold_fst)
  done

lemma moderate_work_world:
  "snd (moderate_work pf base repetitions w) =
     w\<lparr>calls := calls w @ [Call_moderate base repetitions],
       log_args := log_args w @ spec_log_args base repetitions\<rparr>"
proof -
  have inner: "snd (fold (\<lambda>k (result, w). case log_of_int pf (k + base + 1) w of
                            (y, x) \<Rightarrow> (d_add pf result y, x)) ks (r, v))
      = v\<lparr>log_args := log_args v @ concat (map (\<lambda>k. [k + base + 1]) ks)\<rparr>" for ks r v
    by (subst fold_snd [where g = "\<lambda>k w. w\<lparr>log_args := log_args w @ [k + base + 1]\<rparr>"])
       (simp_all add: log_of_int_def fold_log_args)
  have "snd (moderate_work pf base repetitions w) =
     fold (\<lambda>(i :: int32) w. w\<lparr>log_args := log_args w @
              concat (map (\<lambda>k. [k + base + 1]) (map word_of_int [0..99]))\<rparr>)
       (map word_of_int [0..sint repetitions - 1]) (enter (Call_moderate base repetitions) w)"
    apply (simp add: moderate_work_def Let_def for_loop_fold)
    apply (rule fold_snd)
    apply (simp add: inner)
    done
  then show ?thesis
    by (simp add: fold_log_args enter_def spec_log_args_def comp_def concat_map_singleton
        map_replicate_const)
qed

lemma simple_task_effect:
  "simple_task pf ident w = w\<lparr>calls := calls w @ [Call_simple ident]\<rparr>"
  by (simp add: simple_task_def enter_def Let_def)

lemma run_simulation_effect:
  "run_simulation pf w =
     w\<lparr>stdout := stdout w @
         [Str ''Starting intensive computation...'', Endl,
          Str ''Intensive computation finished. Result: '',
          LongV (fst (intensive_computation pf 200 w)), Endl,
          Str ''Starting moderate work series...'', Endl,
          Str ''Moderate work finished.'', Endl,
          Str ''Starting simple tasks...'', Endl,
          Str ''Simple tasks finished.'', Endl],
       calls := calls w @ [Call_intensive 200]
          @ map (\<lambda>i. Call_moderate (word_of_int i * 10) 100) [0..49]
          @ map (\<lambda>i. Call_simple (word_of_int i)) [0..999],
       log_args := log_args w @
          concat (map (\<lambda>i. spec_log_args (word_of_int i * 10) 100) [0..49])\<rparr>"
  by (simp add: run_simulation_def Let_def split_def for_loop_fold print_def
      intensive_computation_result intensive_computation_world moderate_work_world
      simple_task_effect fold_calls fold_calls_log_args word_sless_alt comp_def)

text \<open>
  Claim C4. For every \<open>n\<close> the value returned by \<open>intensive_computation\<close> is the sum, for
  \<open>i\<close> from 0 to \<open>n - 1\<close> and \<open>j\<close> from 1 to 1999 (1999 values), of the \<^verbatim>\<open>long long\<close>
  obtained from \<open>sqrt (j * i) + pow 1.0001 j\<close>, the product and the sum being those of
  \<^verbatim>\<open>double\<close>; the sum is taken in 64 bits. For \<open>n = 0\<close> it is 0.
\<close>

theorem intensive_computation_nested_sum:
  "fst (intensive_computation pf n w) =
     (\<Sum>i\<leftarrow>map word_of_int [0..sint n - 1]. \<Sum>j\<leftarrow>map word_of_int [1..1999].
        d_to_ll pf (d_add pf (d_sqrt pf (d_mul pf (d_of_int pf j) (d_of_int pf i)))
                             (d_pow pf (d_lit pf 10001 4) (d_of_int pf j))))
   \<and> length (map word_of_int [1..1999] :: int32 list) = 1999
   \<and> fst (intensive_computation pf 0 w) = 0"
  by (simp add: intensive_computation_result)

text \<open>
  Where the platform converts an \<^verbatim>\<open>int\<close> as \<open>of_integer\<close> converts its value, the
  conversion of an \<^verbatim>\<open>int\<close> computed without overflow is that of the integer.
\<close>

lemma d_of_int_in_range:
  assumes "\<And>x. of_integer (sint x) = d_of_int pf x"
    and "- 2147483648 \<le> y" "y \<le> 2147483647"
  shows "d_of_int pf (word_of_int y) = of_integer y"
proof -
  have "signed_take_bit 31 y = y"
    using assms(2,3) by (intro signed_take_bit_int_eq_self) simp_all
  then have "sint (word_of_int y :: int32) = y"
    by (simp only: sint_sbintrunc') simp
  with assms(1) [of "word_of_int y"] show ?thesis
    by simp
qed

lemma test_of_integer_agrees: "test_of_integer (sint x) = d_of_int test_platform x"
  by (simp add: test_of_integer_def test_platform_def)

text \<open>
  Claim C5, as the spec states it, fails: \<open>base + i\<close>, \<open>base - i\<close> and \<open>k + base + 1\<close> are
  computed in \<^verbatim>\<open>int\<close>. For \<open>base = 2147483647\<close> and one repetition the first value
  converted and passed to the logarithm is \<open>- 2147483648\<close>, not \<open>0 + base + 1\<close>, and on the
  integer-valued platform the value returned differs from the total of the spec.
\<close>

theorem moderate_work_total_overflow:
  "0 \<le>s (1 :: int32)
   \<and> sint (hd (log_args (snd (moderate_work test_platform 2147483647 1 init_pworld))))
       \<noteq> 0 + sint (2147483647 :: int32) + 1
   \<and> fst (moderate_work test_platform 2147483647 1 init_pworld) = 4611685799384060759
   \<and> spec_moderate_work test_platform test_of_integer
         (sint (2147483647 :: int32)) (sint (1 :: int32)) = 4611686228880790359
   \<and> fst (moderate_work test_platform 2147483647 1 init_pworld)
       \<noteq> spec_moderate_work test_platform test_of_integer
           (sint (2147483647 :: int32)) (sint (1 :: int32))"
proof -
  have arg: "sint (hd (log_args (snd (moderate_work test_platform 2147483647 1 init_pworld))))
      = - 2147483648"
    by (simp add: moderate_work_world init_pworld_def spec_log_args_def upto.simps [of 0])
  have code: "fst (moderate_work test_platform 2147483647 1 init_pworld) = 4611685799384060759"
    by (simp add: moderate_work_result test_platform_def upto.simps [of 0] upto.simps [of 1])
  have spec: "spec_moderate_work test_platform test_of_integer
      (sint (2147483647 :: int32)) (sint (1 :: int32)) = 4611686228880790359"
    by (simp add: spec_moderate_work_def test_platform_def test_of_integer_def
        upto.simps [of 0] upto.simps [of 1])
  have one: "0 \<le>s (1 :: int32)"
    by (simp add: word_sle_eq)
  show ?thesis
    unfolding arg code spec using one by simp
qed

text \<open>
  Claim C5, amended. Let \<open>base\<close> and \<open>repetitions\<close> be such that no \<^verbatim>\<open>int\<close> expression of
  \<open>moderate_work\<close> overflows: \<open>repetitions\<close> is 0 (or negative), or \<open>base\<close> is at most
  2147483547, \<open>base + repetitions - 1\<close> at most 2147483647 and \<open>base - repetitions + 1\<close> at
  least \<open>- 2147483648\<close>. Then the value returned is the total that starts at 0.0 and, for
  \<open>i\<close> from 0 to \<open>repetitions - 1\<close> in this order, first gets \<open>sin (base + i) * cos (base - i)\<close>
  added and then \<open>log (k + base + 1)\<close> for \<open>k\<close> from 0 to 99 in this order, the sums being
  those of the integers. For \<open>repetitions = 0\<close> the value is 0.0 for every \<open>base\<close>.
\<close>

theorem moderate_work_running_total_in_range:
  assumes conv: "\<And>x. of_integer (sint x) = d_of_int pf x"
  shows "(sint repetitions \<le> 0 \<or>
          (sint base \<le> 2147483547 \<and> sint base + sint repetitions - 1 \<le> 2147483647
           \<and> - 2147483648 \<le> sint base - sint repetitions + 1)
        \<longrightarrow> fst (moderate_work pf base repetitions w) =
             spec_moderate_work pf of_integer (sint base) (sint repetitions))
   \<and> fst (moderate_work pf base 0 w) = d_lit pf 0 1"
proof (intro conjI impI)
  show "fst (moderate_work pf base 0 w) = d_lit pf 0 1"
    by (simp add: moderate_work_result)
next
  assume range: "sint repetitions \<le> 0 \<or>
      (sint base \<le> 2147483547 \<and> sint base + sint repetitions - 1 \<le> 2147483647
       \<and> - 2147483648 \<le> sint base - sint repetitions + 1)"
  show "fst (moderate_work pf base repetitions w) =
      spec_moderate_work pf of_integer (sint base) (sint repetitions)"
  proof (cases "sint repetitions \<le> 0")
    case True
    then have "[0..sint repetitions - 1] = []"
      by simp
    then show ?thesis
      by (simp add: moderate_work_result spec_moderate_work_def)
  next
    case False
    with range have b: "sint base \<le> 2147483547"
        "sint base + sint repetitions - 1 \<le> 2147483647"
        "- 2147483648 \<le> sint base - sint repetitions + 1"
      by simp_all
    have lo: "- 2147483648 \<le> sint base" and hi: "sint base \<le> 2147483647"
      using sint_ge [of base] sint_lt [of base] by simp_all
    have log_term: "d_of_int pf (word_of_int k + base + 1) = of_integer (k + sint base + 1)"
      if "k \<in> set [0..99]" for k
    proof -
      have eq: "word_of_int k + base + 1 = (word_of_int (k + sint base + 1) :: int32)"
        by simp
      have "- 2147483648 \<le> k + sint base + 1" "k + sint base + 1 \<le> 2147483647"
        using that b lo by simp_all
      from d_of_int_in_range [OF conv this] show ?thesis
        by (simp only: eq)
    qed
    have inner: "fold ((\<lambda>k t. d_add pf t (d_log pf (d_of_int pf (k + base + 1)))) \<circ> word_of_int)
          [0..99] x
        = fold (\<lambda>k t. d_add pf t (d_log pf (of_integer (k + sint base + 1)))) [0..99] x" for x
      by (rule fold_cong) (simp_all add: log_term)
    have sin_term: "d_of_int pf (base + word_of_int i) = of_integer (sint base + i)"
      and cos_term: "d_of_int pf (base - word_of_int i) = of_integer (sint base - i)"
      if "i \<in> set [0..sint repetitions - 1]" for i
    proof -
      have eq1: "base + word_of_int i = (word_of_int (sint base + i) :: int32)"
        by simp
      have "- 2147483648 \<le> sint base + i" "sint base + i \<le> 2147483647"
        using that b lo by simp_all
      from d_of_int_in_range [OF conv this]
      show "d_of_int pf (base + word_of_int i) = of_integer (sint base + i)"
        by (simp only: eq1)
      have eq2: "base - word_of_int i = (word_of_int (sint base - i) :: int32)"
        by simp
      have "- 2147483648 \<le> sint base - i" "sint base - i \<le> 2147483647"
        using that b hi by simp_all
      from d_of_int_in_range [OF conv this]
      show "d_of_int pf (base - word_of_int i) = of_integer (sint base - i)"
        by (simp only: eq2)
    qed
    show ?thesis
      unfolding moderate_work_result spec_moderate_work_def fold_map
      by (rule fold_cong) (simp_all add: inner sin_term cos_term fun_eq_iff)
  qed
qed

theorem moderate_work_running_total_in_range_witness:
  "(\<forall>x. test_of_integer (sint x) = d_of_int test_platform x)
   \<and> sint (5 :: int32) \<le> 2147483547
   \<and> sint (5 :: int32) + sint (2 :: int32) - 1 \<le> 2147483647
   \<and> - 2147483648 \<le> sint (5 :: int32) - sint (2 :: int32) + 1
   \<and> fst (moderate_work test_platform 5 2 init_pworld) =
       spec_moderate_work test_platform test_of_integer 5 2
   \<and> spec_moderate_work test_platform test_of_integer 5 2 = 11149
   \<and> fst (moderate_work test_platform 7 0 init_pworld) = 0"
proof -
  have spec: "spec_moderate_work test_platform test_of_integer 5 2 = 11149"
    by (simp add: spec_moderate_work_def test_platform_def test_of_integer_def
        upto.simps [of 0] upto.simps [of 1])
  have zero: "d_lit test_platform 0 1 = 0"
    by (simp add: test_platform_def)
  from moderate_work_running_total_in_range [OF test_of_integer_agrees, of 2 5 init_pworld]
    moderate_work_running_total_in_range [OF test_of_integer_agrees, of 0 7 init_pworld]
    spec zero
  show ?thesis
    by (simp add: test_of_integer_agrees)
qed

text \<open>
  Claim C6. \<open>run_simulation\<close> calls \<open>intensive_computation\<close> once, with 200, then
  \<open>moderate_work\<close> 50 times, with base \<open>10 * i\<close> for \<open>i\<close> from 0 to 49 and 100 repetitions,
  then \<open>simple_task\<close> 1000 times, with the ids 0 to 999, in this order. It prints the six
  lines that open and close the three tiers and nothing else.
\<close>

theorem run_simulation_calls_in_order:
  "calls (run_simulation pf w) = calls w @ [Call_intensive 200]
      @ map (\<lambda>i. Call_moderate (word_of_int (10 * i)) 100) [0..49]
      @ map (\<lambda>i. Call_simple (word_of_int i)) [0..999]
   \<and> length [0..49::int] = 50 \<and> length [0..999::int] = 1000
   \<and> stdout (run_simulation pf w) = stdout w @
         [Str ''Starting intensive computation...'', Endl,
          Str ''Intensive computation finished. Result: '',
          LongV (fst (intensive_computation pf 200 w)), Endl,
          Str ''Starting moderate work series...'', Endl,
          Str ''Moderate work finished.'', Endl,
          Str ''Starting simple tasks...'', Endl,
          Str ''Simple tasks finished.'', Endl]"
  by (simp add: run_simulation_effect mult.commute)

text \<open>
  Claim C7. The values returned by \<open>intensive_computation\<close> and \<open>moderate_work\<close> depend on
  their arguments only: two calls with the same arguments return the same value in
  whatever states they are made. The sleep of \<open>intensive_computation\<close> changes the state,
  not the value.
\<close>

theorem workload_results_independent_of_state:
  "fst (intensive_computation pf n w) = fst (intensive_computation pf n w')
   \<and> fst (moderate_work pf base repetitions w) = fst (moderate_work pf base repetitions w')"
  by (simp add: intensive_computation_result moderate_work_result)

text \<open>
  Claim C8. Both \<open>main\<close> functions return 0: that of memory\_example.cpp whatever the
  uninitialized local and the fresh heap cells hold, that of profiling\_example.cpp on
  every platform. Every loop of the two programs terminates (\<open>for_loop\<close> is total).
\<close>

theorem main_exit_code_zero:
  "fst (main_memory env) = 0 \<and> fst (main_profiling pf) = 0"
  by (simp add: main_memory_def main_profiling_def Let_def split_def)

section \<open>The arguments of the logarithm\<close>

lemma sint_log_arg:
  fixes base :: int32
  assumes "0 \<le> sint base" "sint base \<le> 2147483547" "0 \<le> k" "k \<le> 99"
  shows "sint (word_of_int k + base + 1) = k + sint base + 1"
proof -
  have "word_of_int k + base + 1 = (word_of_int (k + sint base + 1) :: int32)"
    by simp
  moreover have "signed_take_bit 31 (k + sint base + 1) = k + sint base + 1"
    using assms by (intro signed_take_bit_int_eq_self) simp_all
  ultimately show ?thesis
    by (simp only: sint_sbintrunc') simp
qed

lemma spec_log_args_positive:
  assumes "0 \<le>s base" "base \<le>s 2147483547" "a \<in> set (spec_log_args base repetitions)"
  shows "\<exists>k. 0 \<le> k \<and> k \<le> 99 \<and> sint a = k + sint base + 1 \<and> 1 \<le> sint a"
proof -
  from assms(1,2) have b: "0 \<le> sint base" "sint base \<le> 2147483547"
    by (simp_all add: word_sle_eq)
  from assms(3) obtain k where k: "0 \<le> k" "k \<le> 99" "a = word_of_int k + base + 1"
    by (auto simp add: spec_log_args_def split: if_splits)
  with b have "sint a = k + sint base + 1"
    by (simp add: sint_log_arg)
  with k b show ?thesis
    by (intro exI [of _ k]) simp
qed

text \<open>
  Claim C9, as the spec states it, fails: \<open>k + base + 1\<close> is computed in \<^verbatim>\<open>int\<close>, and
  for \<open>base = 2147483647\<close> and one repetition the first argument of the logarithm,
  \<open>0 + base + 1\<close>, is \<open>- 2147483648\<close>.
\<close>

theorem moderate_work_log_argument_overflow:
  "0 \<le>s (2147483647 :: int32) \<and> 0 \<le>s (1 :: int32)
   \<and> hd (log_args (snd (moderate_work test_platform 2147483647 1 init_pworld)))
       = 0 + 2147483647 + 1
   \<and> sint (hd (log_args (snd (moderate_work test_platform 2147483647 1 init_pworld))))
       = - 2147483648
   \<and> \<not> 1 \<le> sint (hd (log_args (snd (moderate_work test_platform 2147483647 1 init_pworld))))"
  by (simp add: moderate_work_world init_pworld_def spec_log_args_def word_sle_eq
      upto.simps [of 0])

text \<open>
  Claim C9, amended. The arguments passed to the logarithm by \<open>moderate_work\<close> are the values
  \<open>k + base + 1\<close> for \<open>k\<close> from 0 to 99, once per repetition. For every \<open>base\<close> from 0 to
  2147483547 (the largest \<^verbatim>\<open>int\<close> minus 100) and every number of repetitions each of them is
  the integer \<open>k + base + 1\<close> and at least 1. In \<open>run_simulation\<close> the calls of
  \<open>moderate_work\<close> have the bases \<open>10 * i\<close> for \<open>i\<close> from 0 to 49, and every argument passed
  to the logarithm is at least 1.
\<close>

theorem moderate_work_log_arguments_in_range:
  "log_args (snd (moderate_work pf base repetitions w)) =
      log_args w @ spec_log_args base repetitions
   \<and> (0 \<le>s base \<and> base \<le>s 2147483547 \<longrightarrow>
        (\<forall>a\<in>set (spec_log_args base repetitions).
           \<exists>k. 0 \<le> k \<and> k \<le> 99 \<and> sint a = k + sint base + 1 \<and> 1 \<le> sint a))
   \<and> log_args (run_simulation pf w) =
        log_args w @ concat (map (\<lambda>i. spec_log_args (word_of_int (10 * i)) 100) [0..49])
   \<and> (\<forall>a\<in>set (drop (length (log_args w)) (log_args (run_simulation pf w))). 1 \<le> sint a)"
proof -
  have in_run: "1 \<le> sint a"
    if "a \<in> set (drop (length (log_args w)) (log_args (run_simulation pf w)))" for a
  proof -
    from that obtain i where i: "0 \<le> i" "i \<le> 49"
        and a: "a \<in> set (spec_log_args (word_of_int i * 10) 100)"
      by (auto simp add: run_simulation_effect)
    have "signed_take_bit 31 (i * 10) = i * 10"
      using i by (intro signed_take_bit_int_eq_self) simp_all
    then have "sint (word_of_int i * 10 :: int32) = i * 10"
      using sint_sbintrunc' [where 'a = 32, of "i * 10"] by simp
    with i have "0 \<le>s (word_of_int i * 10 :: int32)"
        "(word_of_int i * 10 :: int32) \<le>s 2147483547"
      by (simp_all add: word_sle_eq)
    from spec_log_args_positive [OF this a] show ?thesis
      by blast
  qed
  show ?thesis
    using spec_log_args_positive [of base _ repetitions] in_run
    by (simp add: moderate_work_world run_simulation_effect mult.commute)
qed

theorem moderate_work_log_arguments_in_range_witness:
  "0 \<le>s (5 :: int32) \<and> (5 :: int32) \<le>s 2147483547
   \<and> list_all (\<lambda>a. 1 \<le> sint a) (spec_log_args 5 2)
   \<and> length (spec_log_args 5 2) = 200
   \<and> log_args (snd (moderate_work test_platform 5 2 init_pworld)) = spec_log_args 5 2
   \<and> list_all (\<lambda>a. 1 \<le> sint a) (log_args (run_simulation test_platform init_pworld))"
proof -
  have h: "0 \<le>s (5 :: int32) \<and> (5 :: int32) \<le>s 2147483547"
    by (simp add: word_sle_eq)
  have len: "length (spec_log_args 5 2) = 200"
    by (simp add: spec_log_args_def length_concat comp_def sum_list_triv)
  from moderate_work_log_arguments_in_range [of test_platform 5 2 init_pworld] h len
  show ?thesis
    by (simp add: list_all_iff init_pworld_def) blast
qed

section \<open>Non-positive iteration counts\<close>

text \<open>
  Claim C10. For every \<open>n \<le> 0\<close>, \<open>intensive_computation n\<close> returns 0: no iteration of the
  outer loop runs. Since \<open>n < 10\<close> the function then sleeps; the duration is \<open>50 * n\<close>
  computed in \<^verbatim>\<open>int\<close>, which does not change the value returned.
\<close>

theorem intensive_computation_nonpositive:
  assumes "n \<le>s 0"
  shows "fst (intensive_computation pf n w) = 0
    \<and> snd (intensive_computation pf n w) =
        w\<lparr>calls := calls w @ [Call_intensive n], slept := slept w @ [sint (50 * n)]\<rparr>"
proof -
  from assms have le: "sint n \<le> 0"
    by (simp add: word_sle_eq)
  then have "[0..sint n - 1] = []"
    by simp
  moreover from le have "n <s 10"
    by (simp add: word_sless_alt)
  ultimately show ?thesis
    by (simp add: intensive_computation_result intensive_computation_world)
qed

theorem intensive_computation_nonpositive_witness:
  "(- 3 :: int32) \<le>s 0
   \<and> intensive_computation test_platform (- 3) init_pworld =
       (0, init_pworld\<lparr>calls := [Call_intensive (- 3)], slept := [- 150]\<rparr>)"
proof -
  have h: "(- 3 :: int32) \<le>s 0"
    by (simp add: word_sle_eq)
  from intensive_computation_nonpositive [OF h, of test_platform init_pworld] h
  show ?thesis
    by (simp add: prod_eq_iff init_pworld_def)
qed

end
